theory Spec2Isabelle
  imports Main "HOL-Library.Word"
begin

unbundle bit_operations_syntax

section \<open>arpingall: data model\<close>

text \<open>
  The program (\<^verbatim>\<open>src/arpingall.go\<close>) reads the kernel routing table, keeps the default
  route's gateway of every interface, lists the addresses of the local interfaces and runs
  \<^verbatim>\<open>arping\<close> once for every IPv4 address whose interface has a default gateway.

  Go strings are byte sequences: \<^typ>\<open>string\<close> (a list of 8-bit characters). A \<^verbatim>\<open>[]byte\<close>,
  and so a \<^verbatim>\<open>net.IP\<close>, is a list of 8-bit words; the \<^verbatim>\<open>nil\<close> slice is the empty list
  wherever the code only asks for its length.
\<close>

type_synonym byte = "8 word"

type_synonym IP = "byte list"

text \<open>The errors \<^verbatim>\<open>GetRoutes\<close> can return: the two of \<^verbatim>\<open>encoding/hex\<close>, and the two
  the program makes with \<^verbatim>\<open>fmt.Errorf\<close> (the field count and the line are the arguments of
  its format string).\<close>

datatype error =
    InvalidByteError char
  | ErrLength
  | OnlyIPv4Supported
  | WrongNumberOfFields nat string

record Route =
  Interface :: string
  Destination :: IP
  Gateway :: IP

record iface =
  name :: string
  mac :: string
  addr :: string

section \<open>Library: \<^verbatim>\<open>encoding/hex\<close>\<close>

text \<open>\<^verbatim>\<open>fromHexChar\<close>: the value of a hexadecimal digit of either case.\<close>

definition fromHexChar :: "char \<Rightarrow> byte option" where
  "fromHexChar c =
     (let n = (of_char c :: nat) in
      if 48 \<le> n \<and> n \<le> 57 then Some (of_nat (n - 48))
      else if 97 \<le> n \<and> n \<le> 102 then Some (of_nat (n - 97 + 10))
      else if 65 \<le> n \<and> n \<le> 70 then Some (of_nat (n - 65 + 10))
      else None)"

text \<open>\<^verbatim>\<open>hex.DecodeString\<close>: two digits make a byte, \<^verbatim>\<open>(a << 4) | b\<close>. The first digit
  that is none stops the decoding with \<^verbatim>\<open>InvalidByteError\<close>; a string of odd length whose
  digits are all valid ends with \<^verbatim>\<open>ErrLength\<close> (early releases of Go report
  \<^verbatim>\<open>ErrLength\<close> for every string of odd length; nothing below depends on which of the two
  errors such a string gets). The bytes decoded before an error are dropped by the only
  caller, so the model returns the error alone.\<close>

fun DecodeString :: "string \<Rightarrow> error + byte list" where
  "DecodeString [] = Inr []"
| "DecodeString [p] =
     (case fromHexChar p of None \<Rightarrow> Inl (InvalidByteError p) | Some a \<Rightarrow> Inl ErrLength)"
| "DecodeString (p # q # rest) =
     (case fromHexChar p of
        None \<Rightarrow> Inl (InvalidByteError p)
      | Some a \<Rightarrow>
          (case fromHexChar q of
             None \<Rightarrow> Inl (InvalidByteError q)
           | Some b \<Rightarrow>
               (case DecodeString rest of
                  Inl e \<Rightarrow> Inl e
                | Inr bytes \<Rightarrow> Inr ((push_bit 4 a OR b) # bytes))))"

text \<open>\<^verbatim>\<open>hex.EncodeToString\<close> writes \<^verbatim>\<open>hextable[v >> 4]\<close> and \<^verbatim>\<open>hextable[v & 0x0f]\<close> for
  every byte, with the lower-case table. The kernel prints the routing table with upper-case
  digits, so the table's case is a parameter here.\<close>

definition hextable :: "bool \<Rightarrow> string" where
  "hextable upper = (if upper then ''0123456789ABCDEF'' else ''0123456789abcdef'')"

definition EncodeToString :: "bool \<Rightarrow> byte list \<Rightarrow> string" where
  "EncodeToString upper src =
     concat (map (\<lambda>v. [hextable upper ! unat (drop_bit 4 v), hextable upper ! unat (v AND 15)]) src)"

section \<open>\<^verbatim>\<open>parseIP\<close>\<close>

text \<open>The assignment \<^verbatim>\<open>bytes[0], bytes[1], bytes[2], bytes[3] = bytes[3], bytes[2], bytes[1], bytes[0]\<close>,
  which the code reaches with exactly four bytes.\<close>

definition swap4 :: "byte list \<Rightarrow> byte list" where
  "swap4 bytes = [bytes ! 3, bytes ! 2, bytes ! 1, bytes ! 0]"

definition parseIP :: "string \<Rightarrow> error + IP" where
  "parseIP str =
     (case DecodeString str of
        Inl err \<Rightarrow> Inl err
      | Inr bytes \<Rightarrow>
          if length bytes \<noteq> 4 then Inl OnlyIPv4Supported
          else Inr (swap4 bytes))"

text \<open>The other half of the round trip that the specification describes (byte-swap, then
  hex-encode). The program has no encoder, so this definition follows the specification's
  words, with \<^verbatim>\<open>hex.EncodeToString\<close> above as the encoder; it is compared with \<open>parseIP\<close>
  below.\<close>

definition reencodeIP :: "bool \<Rightarrow> IP \<Rightarrow> string" where
  "reencodeIP upper ip = EncodeToString upper (swap4 ip)"

text \<open>A hexadecimal letter in the case of the table, any other character unchanged.\<close>

definition hexCase :: "bool \<Rightarrow> char \<Rightarrow> char" where
  "hexCase upper c =
     (let n = (of_char c :: nat) in
      if upper then (if 97 \<le> n \<and> n \<le> 102 then char_of (n - 32) else c)
      else (if 65 \<le> n \<and> n \<le> 70 then char_of (n + 32) else c))"

section \<open>Library: \<^verbatim>\<open>strings.Fields\<close> and \<^verbatim>\<open>ReadString\<close>\<close>

text \<open>\<^verbatim>\<open>strings.Fields\<close> splits a string around each run of white space, as
  \<^verbatim>\<open>unicode.IsSpace\<close> defines it, and returns the non-empty pieces. The six ASCII spaces are
  one byte each; the others are the UTF-8 encodings of U+0085, U+00A0, U+1680,
  U+2000 to U+200A, U+2028, U+2029, U+202F, U+205F and U+3000. Each of these encodings starts
  with a leading byte, which is never inside another well-formed character, so looking for
  them byte by byte finds the same spaces as decoding the string character by character.
  \<open>spaceWidth s\<close> is the number of bytes of the white-space character \<open>s\<close> starts with, or 0.\<close>

definition isAsciiSpace :: "char \<Rightarrow> bool" where
  "isAsciiSpace c = ((of_char c :: nat) \<in> set [9, 10, 11, 12, 13, 32])"

definition spaceWidth :: "string \<Rightarrow> nat" where
  "spaceWidth s =
     (let b = (map of_char (take 3 s) :: nat list) in
      if s \<noteq> [] \<and> isAsciiSpace (hd s) then 1
      else if take 2 b = [194, 133] \<or> take 2 b = [194, 160] then 2
      else if b = [225, 154, 128] \<or> b = [226, 129, 159] \<or> b = [227, 128, 128] then 3
      else if length b = 3 \<and> take 2 b = [226, 128]
          \<and> (128 \<le> b ! 2 \<and> b ! 2 \<le> 138 \<or> b ! 2 = 168 \<or> b ! 2 = 169 \<or> b ! 2 = 175)
        then 3
      else 0)"

text \<open>The scan keeps the field it is in (\<open>cur\<close>) and the number of bytes of a white-space
  character still to pass over (\<open>skip\<close>).\<close>

fun fieldsScan :: "nat \<Rightarrow> string \<Rightarrow> string \<Rightarrow> string list" where
  "fieldsScan skip cur [] = (if cur = [] then [] else [cur])"
| "fieldsScan skip cur (c # cs) =
     (if 0 < skip then fieldsScan (skip - 1) cur cs
      else if spaceWidth (c # cs) = 0 then fieldsScan 0 (cur @ [c]) cs
      else (if cur = [] then [] else [cur]) @ fieldsScan (spaceWidth (c # cs) - 1) [] cs)"

definition Fields :: "string \<Rightarrow> string list" where
  "Fields s = fieldsScan 0 [] s"

text \<open>The calls of \<^verbatim>\<open>scanner.ReadString('\n')\<close> over a file's content, until the one
  that returns \<^verbatim>\<open>io.EOF\<close>: every call before it returns the bytes up to and including the
  next newline. The call that meets the end of the file before a newline returns what is
  left together with \<^verbatim>\<open>io.EOF\<close>, and the loop of \<^verbatim>\<open>GetRoutes\<close> breaks on it before it
  looks at the line. \<open>readLines line rest\<close> lists the lines the loop body sees; \<open>line\<close> is
  the part of the current line read so far. The file is taken as opened and read without
  an I/O error.\<close>

fun readLines :: "string \<Rightarrow> string \<Rightarrow> string list" where
  "readLines line [] = []"
| "readLines line (c # rest) =
     (if c = CHR 0x0A then (line @ [c]) # readLines [] rest
      else readLines (line @ [c]) rest)"

section \<open>Library: \<^verbatim>\<open>net.IP\<close> and \<^verbatim>\<open>net.HardwareAddr\<close>\<close>

definition v4InV6Prefix :: "byte list" where
  "v4InV6Prefix = [0, 0, 0, 0, 0, 0, 0, 0, 0, 0, 255, 255]"

text \<open>\<^verbatim>\<open>IP.Equal\<close>: an IPv4 address and the same address in 16-byte form are equal.\<close>

definition Equal :: "IP \<Rightarrow> IP \<Rightarrow> bool" where
  "Equal ip x =
     (if length ip = length x then ip = x
      else if length ip = 4 \<and> length x = 16
        then take 12 x = v4InV6Prefix \<and> ip = drop 12 x
      else if length ip = 16 \<and> length x = 4
        then take 12 ip = v4InV6Prefix \<and> drop 12 ip = x
      else False)"

text \<open>\<^verbatim>\<open>IP.To4\<close>; \<open>None\<close> is its \<^verbatim>\<open>nil\<close>.\<close>

definition To4 :: "IP \<Rightarrow> IP option" where
  "To4 ip =
     (if length ip = 4 then Some ip
      else if length ip = 16 \<and> take 10 ip = [0, 0, 0, 0, 0, 0, 0, 0, 0, 0]
          \<and> ip ! 10 = 255 \<and> ip ! 11 = 255
        then Some (drop 12 ip)
      else None)"

text \<open>The decimal digits of a byte, without leading zeros (\<^verbatim>\<open>appendDecimal\<close> of
  \<^verbatim>\<open>net/netip\<close>), and the dotted form of four bytes.\<close>

definition digits :: string where
  "digits = ''0123456789''"

definition appendDecimal :: "byte \<Rightarrow> string" where
  "appendDecimal x =
     (if 100 \<le> x then [digits ! unat (x div 100)] else [])
     @ (if 10 \<le> x then [digits ! unat (x div 10 mod 10)] else [])
     @ [digits ! unat (x mod 10)]"

definition dottedQuad :: "IP \<Rightarrow> string" where
  "dottedQuad ip =
     appendDecimal (ip ! 0) @ ''.'' @ appendDecimal (ip ! 1) @ ''.''
     @ appendDecimal (ip ! 2) @ ''.'' @ appendDecimal (ip ! 3)"

text \<open>\<^verbatim>\<open>IP.String\<close>. The text of a 16-byte address that is not an IPv4 address (the IPv6
  notation) is the parameter \<open>string6\<close>.\<close>

definition ipString :: "(IP \<Rightarrow> string) \<Rightarrow> IP \<Rightarrow> string" where
  "ipString string6 ip =
     (if length ip = 0 then ''<nil>''
      else if length ip \<noteq> 4 \<and> length ip \<noteq> 16 then ''?'' @ EncodeToString False ip
      else (case To4 ip of Some p4 \<Rightarrow> dottedQuad p4 | None \<Rightarrow> string6 ip))"

text \<open>\<^verbatim>\<open>HardwareAddr.String\<close>: empty for no bytes, else two lower-case hexadecimal digits
  for every byte, with colons between the bytes. \<open>hwBytes\<close> writes a colon before every
  byte and \<open>hwString\<close> drops the first one.\<close>

fun hwBytes :: "byte list \<Rightarrow> string" where
  "hwBytes [] = []"
| "hwBytes (b # bs) =
     CHR '':'' # hextable False ! unat (drop_bit 4 b) # hextable False ! unat (b AND 15) # hwBytes bs"

definition hwString :: "byte list \<Rightarrow> string" where
  "hwString a = (if length a = 0 then [] else tl (hwBytes a))"

section \<open>\<^verbatim>\<open>GetRoutes\<close> and \<^verbatim>\<open>getDefaultRoutes\<close>\<close>

text \<open>The body of the loop of \<^verbatim>\<open>GetRoutes\<close>, for the lines that \<^verbatim>\<open>ReadString\<close> returned
  with no \<^verbatim>\<open>io.EOF\<close>. The field count is checked before the line counter is advanced and
  the first line is skipped. A route is appended before its addresses are parsed, but every
  error returns \<^verbatim>\<open>nil\<close> for the routes, so the unfinished route is never seen.\<close>

fun scanLoop :: "nat \<Rightarrow> Route list \<Rightarrow> string list \<Rightarrow> error + Route list" where
  "scanLoop lineNum routes [] = Inr routes"
| "scanLoop lineNum routes (line # rest) =
     (let fields = Fields line in
      if length fields < 3 then Inl (WrongNumberOfFields (length fields) line)
      else if lineNum + 1 = 1 then scanLoop (lineNum + 1) routes rest
      else
        (case parseIP (fields ! 1) of
           Inl err \<Rightarrow> Inl err
         | Inr dst \<Rightarrow>
             (case parseIP (fields ! 2) of
                Inl err \<Rightarrow> Inl err
              | Inr gw \<Rightarrow>
                  scanLoop (lineNum + 1)
                    (routes @ [\<lparr>Interface = fields ! 0, Destination = dst, Gateway = gw\<rparr>])
                    rest)))"

text \<open>\<open>content\<close> is the content of \<^verbatim>\<open>/proc/net/route\<close>.\<close>

definition GetRoutes :: "string \<Rightarrow> error + Route list" where
  "GetRoutes content = scanLoop 0 [] (readLines [] content)"

definition zero :: IP where
  "zero = [0, 0, 0, 0]"

text \<open>The loop of \<^verbatim>\<open>getDefaultRoutes\<close> over the routes; the Go map is a partial function,
  and reading a missing key gives \<^verbatim>\<open>nil\<close>, here \<open>None\<close>.\<close>

fun defaultRoutesLoop :: "(string \<rightharpoonup> IP) \<Rightarrow> Route list \<Rightarrow> (string \<rightharpoonup> IP)" where
  "defaultRoutesLoop defaultRoutes [] = defaultRoutes"
| "defaultRoutesLoop defaultRoutes (r # routes) =
     defaultRoutesLoop
       (if Equal (Destination r) zero then defaultRoutes(Interface r \<mapsto> Gateway r)
        else defaultRoutes)
       routes"

text \<open>\<^verbatim>\<open>getDefaultRoutes\<close> prints the error of \<^verbatim>\<open>GetRoutes\<close> and exits with status 1; the
  model returns the error, and \<open>main\<close> below makes the exit.\<close>

definition getDefaultRoutes :: "string \<Rightarrow> error + (string \<rightharpoonup> IP)" where
  "getDefaultRoutes content =
     (case GetRoutes content of
        Inl err \<Rightarrow> Inl err
      | Inr routes \<Rightarrow> Inr (defaultRoutesLoop Map.empty routes))"

text \<open>Predicates on the lines of the routing table, for the statements below: a line as
  \<^verbatim>\<open>ReadString\<close> returns it (ended by its only newline); a field that decodes as
  hexadecimal, to other than four bytes; a line whose destination or gateway is such a field;
  a line the loop body takes without an error.\<close>

definition isLine :: "string \<Rightarrow> bool" where
  "isLine l = (l \<noteq> [] \<and> last l = CHR 0x0A \<and> CHR 0x0A \<notin> set (butlast l))"

definition wrongLength :: "string \<Rightarrow> bool" where
  "wrongLength f = (case DecodeString f of Inl err \<Rightarrow> False | Inr bytes \<Rightarrow> length bytes \<noteq> 4)"

definition hasWrongLengthField :: "string \<Rightarrow> bool" where
  "hasWrongLengthField l =
     (let fields = Fields l in
      (1 < length fields \<and> wrongLength (fields ! 1))
      \<or> (2 < length fields \<and> wrongLength (fields ! 2)))"

definition parsesLine :: "string \<Rightarrow> bool" where
  "parsesLine l =
     (let fields = Fields l in
      3 \<le> length fields \<and> \<not> isl (parseIP (fields ! 1)) \<and> \<not> isl (parseIP (fields ! 2)))"

text \<open>The error with which the loop body returns on a line after the header, \<open>None\<close> when it
  appends a route and goes on: the field count first, then the destination, then the
  gateway.\<close>

definition lineError :: "string \<Rightarrow> error option" where
  "lineError l =
     (let fields = Fields l in
      if length fields < 3 then Some (WrongNumberOfFields (length fields) l)
      else
        (case parseIP (fields ! 1) of
           Inl err \<Rightarrow> Some err
         | Inr dst \<Rightarrow>
             (case parseIP (fields ! 2) of
                Inl err \<Rightarrow> Some err
              | Inr gw \<Rightarrow> None)))"

section \<open>The system the program runs in\<close>

text \<open>What \<^verbatim>\<open>net.Interfaces\<close> returns for one interface: its name, its hardware address and
  the result of its \<^verbatim>\<open>Addrs\<close> call, an error's text or the \<^verbatim>\<open>String\<close> of every address.\<close>

record sysInterface =
  Name :: string
  HardwareAddr :: "byte list"
  Addrs :: "string + string list"

text \<open>A run of the command: it did not start, or it exited with a status after writing to
  its standard output and its standard error.\<close>

datatype cmdResult =
    StartFailed string
  | Exited nat string string

datatype cmdError =
    StartError string
  | ExitError nat

text \<open>\<^verbatim>\<open>Cmd.Output\<close> runs the command and returns its standard output, with an error when
  the command did not start or its exit status is not 0. The standard error is not part of
  the returned bytes.\<close>

fun Output :: "cmdResult \<Rightarrow> string \<times> cmdError option" where
  "Output (StartFailed msg) = ([], Some (StartError msg))"
| "Output (Exited status out err) = (out, if status = 0 then None else Some (ExitError status))"

text \<open>The environment of a run: the content of \<^verbatim>\<open>/proc/net/route\<close>, the result of
  \<^verbatim>\<open>net.Interfaces\<close>, the address \<^verbatim>\<open>net.ParseCIDR\<close> returns for a text (\<open>[]\<close> for the
  \<^verbatim>\<open>nil\<close> it returns with an error), the IPv6 notation of \<^verbatim>\<open>IP.String\<close>, and what the
  \<open>k\<close>-th run of \<^verbatim>\<open>arping\<close> does with its arguments.\<close>

record env =
  routeFile :: string
  Interfaces :: "string + sysInterface list"
  ParseCIDR :: "string \<Rightarrow> IP"
  string6 :: "IP \<Rightarrow> string"
  arping :: "nat \<Rightarrow> string list \<Rightarrow> cmdResult"

text \<open>What a run does, in order: a line given to the logger, the error of the routing table
  printed, a run of \<^verbatim>\<open>arping\<close> with its arguments, an error of that run logged, a text
  written to the standard output, and \<^verbatim>\<open>os.Exit\<close>.\<close>

datatype event =
    Log string
  | PrintRouteError error
  | Exec "string list"
  | LogCmdError cmdError
  | Stdout string
  | Exit nat

section \<open>\<^verbatim>\<open>localAddresses\<close>\<close>

text \<open>The loop over the interfaces, with the log lines and the list built so far.\<close>

fun addrsLoop :: "event list \<Rightarrow> iface list \<Rightarrow> sysInterface list \<Rightarrow> event list \<times> iface list" where
  "addrsLoop logs interfaceList [] = (logs, interfaceList)"
| "addrsLoop logs interfaceList (i # ifaces) =
     (if hwString (HardwareAddr i) = [] then addrsLoop logs interfaceList ifaces
      else
        (case Addrs i of
           Inl err \<Rightarrow>
             addrsLoop (logs @ [Log (''localAddresses: '' @ err @ ''\<newline>'')]) interfaceList ifaces
         | Inr addrs \<Rightarrow>
             addrsLoop logs
               (interfaceList
                @ map (\<lambda>a. \<lparr>name = Name i, mac = hwString (HardwareAddr i), addr = a\<rparr>) addrs)
               ifaces))"

text \<open>The result is the log, the list and the error (\<open>None\<close> for \<^verbatim>\<open>nil\<close>).\<close>

definition localAddresses :: "string + sysInterface list \<Rightarrow> event list \<times> iface list \<times> string option" where
  "localAddresses sys =
     (case sys of
        Inl err \<Rightarrow> ([Log (''localAddresses: '' @ err @ ''\<newline>'')], [], Some err)
      | Inr ifaces \<Rightarrow>
          (case addrsLoop [] [] ifaces of (logs, interfaceList) \<Rightarrow> (logs, interfaceList, None)))"

section \<open>\<^verbatim>\<open>main\<close>\<close>

definition arpingArgs :: "string \<Rightarrow> string \<Rightarrow> string \<Rightarrow> string list" where
  "arpingArgs ifname src gw = [''-U'', ''-c'', ''1'', ''-I'', ifname, ''-s'', src, gw]"

text \<open>The loop of \<^verbatim>\<open>main\<close> over the local addresses; \<open>k\<close> counts the runs of \<^verbatim>\<open>arping\<close>
  made so far. The loop ends the trace with \<open>Exit 1\<close> when a run fails.\<close>

fun dispatch :: "env \<Rightarrow> (string \<rightharpoonup> IP) \<Rightarrow> nat \<Rightarrow> iface list \<Rightarrow> event list" where
  "dispatch e defaultRoutes k [] = []"
| "dispatch e defaultRoutes k (i # ifaces) =
     (let ip = ParseCIDR e (addr i) in
      if To4 ip = None
        then Log (''Skipping non-IPv4 address: '' @ addr i @ ''\<newline>'')
          # dispatch e defaultRoutes k ifaces
      else
        (case defaultRoutes (name i) of
           None \<Rightarrow>
             Log (''Skipping IP because couldn't find default gateway for its interface: ''
                  @ addr i @ '' (iface: '' @ name i @ '')\<newline>'')
             # dispatch e defaultRoutes k ifaces
         | Some gw \<Rightarrow>
             (let args = arpingArgs (name i) (ipString (string6 e) ip) (ipString (string6 e) gw) in
              Log (''Executing: arping -U -c 1 -I '' @ name i @ '' -s '' @ ipString (string6 e) ip
                   @ '' '' @ ipString (string6 e) gw @ ''\<newline>'')
              # Exec args
              # (case Output (arping e k args) of
                   (output, Some err) \<Rightarrow> [LogCmdError err, Exit 1]
                 | (output, None) \<Rightarrow>
                     Stdout (output @ ''\<newline>'') # dispatch e defaultRoutes (k + 1) ifaces))))"

definition main :: "env \<Rightarrow> event list" where
  "main e =
     (case getDefaultRoutes (routeFile e) of
        Inl err \<Rightarrow> [PrintRouteError err, Exit 1]
      | Inr defaultRoutes \<Rightarrow>
          (case localAddresses (Interfaces e) of
             (logs, ifaces, Some err) \<Rightarrow>
               logs @ [Log (''Error getting interfaces: '' @ err), Exit 1]
           | (logs, ifaces, None) \<Rightarrow> logs @ dispatch e defaultRoutes 0 ifaces))"

text \<open>The runs of \<^verbatim>\<open>arping\<close> in a trace, with their arguments.\<close>

fun execs :: "event list \<Rightarrow> string list list" where
  "execs [] = []"
| "execs (Exec args # evs) = args # execs evs"
| "execs (ev # evs) = execs evs"


text \<open>An example system: the interface \<open>eth0\<close> with the address 10.0.0.2/24 and the default
  gateway 10.0.0.1, the loopback interface with no hardware address, and an \<^verbatim>\<open>arping\<close>
  whose every run ends as \<open>result\<close>.\<close>

definition exampleEnv :: "cmdResult \<Rightarrow> env" where
  "exampleEnv result =
     \<lparr>routeFile = ''Iface Destination Gateway\<newline>eth0 00000000 0100000A\<newline>eth0 0000000A 00000000\<newline>'',
      Interfaces = Inr
        [\<lparr>Name = ''eth0'', HardwareAddr = [170, 187, 204, 221, 238, 255],
           Addrs = Inr [''10.0.0.2/24'']\<rparr>,
         \<lparr>Name = ''lo'', HardwareAddr = [], Addrs = Inr [''127.0.0.1/8'']\<rparr>],
      ParseCIDR = (\<lambda>s. if s = ''10.0.0.2/24'' then v4InV6Prefix @ [10, 0, 0, 2] else []),
      string6 = (\<lambda>ip. []),
      arping = (\<lambda>k args. result)\<rparr>"

section \<open>Hexadecimal digits and bytes\<close>

lemma nibble_cases:
  assumes "(a::byte) < 16"
  shows "a \<in> {0, 1, 2, 3, 4, 5, 6, 7, 8, 9, 10, 11, 12, 13, 14, 15}"
proof -
  from assms have "unat a < 16" by (simp add: word_less_nat_alt)
  then have "unat a \<in> {0, 1, 2, 3, 4, 5, 6, 7, 8, 9, 10, 11, 12, 13, 14, 15}"
    by simp arith
  then have "word_of_nat (unat a)
      \<in> (word_of_nat ` {0, 1, 2, 3, 4, 5, 6, 7, 8, 9, 10, 11, 12, 13, 14, 15} :: byte set)"
    by (rule imageI)
  then show ?thesis by simp
qed

lemma high_nibble: "(a::byte) < 16 \<Longrightarrow> b < 16 \<Longrightarrow> drop_bit 4 (push_bit 4 a OR b) = a"
  by (drule nibble_cases, drule nibble_cases) auto

lemma low_nibble: "(a::byte) < 16 \<Longrightarrow> b < 16 \<Longrightarrow> (push_bit 4 a OR b) AND 15 = b"
  by (drule nibble_cases, drule nibble_cases) auto

lemma fromHexChar_digits:
  assumes "fromHexChar c = Some a"
  shows "c \<in> set ''0123456789abcdefABCDEF''"
proof -
  define n where "n = (of_char c :: nat)"
  have c: "c = char_of n" by (simp add: n_def)
  from assms have "48 \<le> n \<and> n \<le> 57 \<or> 97 \<le> n \<and> n \<le> 102 \<or> 65 \<le> n \<and> n \<le> 70"
    unfolding fromHexChar_def n_def [symmetric] Let_def by (simp split: if_splits)
  then have "n \<in> {48, 49, 50, 51, 52, 53, 54, 55, 56, 57, 97, 98, 99, 100, 101, 102,
      65, 66, 67, 68, 69, 70}"
    by simp arith
  then show ?thesis unfolding c by (auto simp: char_of_eq_iff)
qed

lemma eq_char_of_iff: "c = char_of (n::nat) \<longleftrightarrow> take_bit 8 n = of_char c"
  using char_of_eq_iff [of n c] by auto

lemma fromHexChar_table:
  assumes "fromHexChar c = Some a"
  shows "a < 16 \<and> hextable upper ! unat a = hexCase upper c"
proof -
  from assms have "c \<in> set ''0123456789abcdefABCDEF''" by (rule fromHexChar_digits)
  with assms show ?thesis
    by (cases upper) (auto simp: fromHexChar_def hextable_def hexCase_def eq_char_of_iff)
qed

lemma swap4_swap4: "length bytes = 4 \<Longrightarrow> swap4 (swap4 bytes) = bytes"
  by (auto simp: swap4_def numeral_eq_Suc length_Suc_conv)

lemma length_swap4: "length (swap4 bytes) = 4"
  by (simp add: swap4_def)

lemma DecodeString_digits:
  "\<forall>c\<in>set s. fromHexChar c \<noteq> None \<Longrightarrow> even (length s) \<Longrightarrow>
     \<exists>bytes. DecodeString s = Inr bytes \<and> 2 * length bytes = length s
       \<and> EncodeToString upper bytes = map (hexCase upper) s"
proof (induction s rule: DecodeString.induct)
  case 1
  show ?case by (simp add: EncodeToString_def)
next
  case (2 p)
  then show ?case by simp
next
  case (3 p q rest)
  from "3.prems" obtain a b where ab: "fromHexChar p = Some a" "fromHexChar q = Some b"
    by auto
  from "3.prems" have "\<forall>c\<in>set rest. fromHexChar c \<noteq> None" "even (length rest)"
    by simp_all
  with "3.IH" [OF ab] obtain bytes where bytes: "DecodeString rest = Inr bytes"
      "2 * length bytes = length rest" "EncodeToString upper bytes = map (hexCase upper) rest"
    by blast
  from fromHexChar_table [OF ab(1)] fromHexChar_table [OF ab(2)]
  have tab: "a < 16" "b < 16" "hextable upper ! unat a = hexCase upper p"
      "hextable upper ! unat b = hexCase upper q"
    by simp_all
  define v where "v = push_bit 4 a OR b"
  from tab have v: "hextable upper ! unat (drop_bit 4 v) = hexCase upper p"
      "hextable upper ! unat (v AND 15) = hexCase upper q"
    by (simp_all only: v_def high_nibble low_nibble)
  have "DecodeString (p # q # rest) = Inr (v # bytes)"
    by (simp add: ab bytes(1) v_def)
  moreover have "EncodeToString upper (v # bytes) = map (hexCase upper) (p # q # rest)"
    using bytes(3) v by (simp add: EncodeToString_def)
  moreover have "2 * length (v # bytes) = length (p # q # rest)"
    using bytes(2) by simp
  ultimately show ?case by blast
qed

section \<open>The round trip of an address field\<close>

lemma parseIP_digits:
  assumes "length s = 8" and "\<forall>c\<in>set s. fromHexChar c \<noteq> None"
  shows "\<exists>ip. parseIP s = Inr ip \<and> length ip = 4
    \<and> reencodeIP upper ip = map (hexCase upper) s"
proof -
  from assms have "even (length s)" by simp
  with assms(2) obtain bytes where bytes: "DecodeString s = Inr bytes"
      "2 * length bytes = length s" "EncodeToString upper bytes = map (hexCase upper) s"
    using DecodeString_digits [of s upper] by blast
  from bytes(2) assms(1) have len: "length bytes = 4" by simp
  then have "parseIP s = Inr (swap4 bytes)"
    by (simp add: parseIP_def bytes(1))
  moreover have "reencodeIP upper (swap4 bytes) = map (hexCase upper) s"
    using len bytes(3) by (simp add: reencodeIP_def swap4_swap4)
  ultimately show ?thesis by (simp add: length_swap4)
qed

text \<open>
  C3 (as the spec states it, refuted). The two fields \<open>0101A8C0\<close> and \<open>0101a8c0\<close> are both
  valid, differ, and decode to the same address 192.168.1.1: \<^verbatim>\<open>hex.DecodeString\<close> reads the
  letters of either case. Whatever re-encodes the address returns one text, so it cannot
  reproduce both fields; the lower-case encoder of \<^verbatim>\<open>encoding/hex\<close> does not reproduce the
  field as the kernel prints it.
\<close>

theorem parseIP_roundtrip_counterexample:
  "parseIP ''0101A8C0'' = Inr [192, 168, 1, 1]
   \<and> parseIP ''0101a8c0'' = Inr [192, 168, 1, 1]
   \<and> ''0101a8c0'' \<noteq> ''0101A8C0''
   \<and> reencodeIP False [192, 168, 1, 1] = ''0101a8c0''
   \<and> reencodeIP False [192, 168, 1, 1] \<noteq> ''0101A8C0''"
  by (simp add: parseIP_def fromHexChar_def swap4_def reencodeIP_def EncodeToString_def
      hextable_def)

text \<open>
  C3 (amended). For every field of 8 hexadecimal digits, \<open>parseIP\<close> succeeds with a 4-byte
  address, and swapping the bytes back and encoding them in hexadecimal gives the field with
  its letters in the encoder's case: the field itself exactly when its letters already have
  that case (upper case for the kernel's table, lower case for \<^verbatim>\<open>hex.EncodeToString\<close>).
\<close>

theorem parseIP_roundtrip:
  assumes "length s = 8" and "\<forall>c\<in>set s. fromHexChar c \<noteq> None"
  shows "\<exists>ip. parseIP s = Inr ip \<and> length ip = 4
    \<and> reencodeIP upper ip = map (hexCase upper) s
    \<and> ((\<forall>c\<in>set s. hexCase upper c = c) \<longrightarrow> reencodeIP upper ip = s)"
proof -
  from parseIP_digits [OF assms, of upper] obtain ip where ip: "parseIP s = Inr ip"
      "length ip = 4" "reencodeIP upper ip = map (hexCase upper) s"
    by blast
  have "map (hexCase upper) s = s" if "\<forall>c\<in>set s. hexCase upper c = c"
    using that by (simp add: map_idI)
  with ip show ?thesis by auto
qed

theorem parseIP_roundtrip_witness:
  "parseIP ''0101A8C0'' = Inr [192, 168, 1, 1]
   \<and> reencodeIP True [192, 168, 1, 1] = ''0101A8C0''
   \<and> reencodeIP False [192, 168, 1, 1] = map (hexCase False) ''0101A8C0''"
proof -
  have v: "length ''0101A8C0'' = 8" "\<forall>c\<in>set ''0101A8C0''. fromHexChar c \<noteq> None"
    by (simp_all add: fromHexChar_def)
  have u: "\<forall>c\<in>set ''0101A8C0''. hexCase True c = c"
    by (simp add: hexCase_def)
  have p: "parseIP ''0101A8C0'' = Inr [192, 168, 1, 1]"
    by (simp add: parseIP_def fromHexChar_def swap4_def)
  from parseIP_roundtrip [OF v, of True] parseIP_roundtrip [OF v, of False] u p
  show ?thesis by auto
qed

section \<open>The default-gateway index\<close>

lemma Equal_zero: "Equal d zero \<longleftrightarrow> d = zero \<or> d = v4InV6Prefix @ zero"
proof (cases "length d = 16")
  case True
  have "d = v4InV6Prefix @ zero" if "take 12 d = v4InV6Prefix" "drop 12 d = zero"
    using that append_take_drop_id [of 12 d] by simp
  moreover have "Equal d zero \<longleftrightarrow> take 12 d = v4InV6Prefix \<and> drop 12 d = zero"
    using True by (simp add: Equal_def zero_def)
  moreover have "d \<noteq> zero"
    using True by (auto simp: zero_def)
  moreover have "take 12 (v4InV6Prefix @ zero) = v4InV6Prefix" "drop 12 (v4InV6Prefix @ zero) = zero"
    by (simp_all add: v4InV6Prefix_def)
  ultimately show ?thesis by metis
next
  case False
  then show ?thesis by (auto simp: Equal_def zero_def v4InV6Prefix_def)
qed

lemma defaultRoutesLoop_last:
  "defaultRoutesLoop m routes n =
     (case filter (\<lambda>r. Interface r = n \<and> Equal (Destination r) zero) routes of
        [] \<Rightarrow> m n
      | r # rs \<Rightarrow> Some (Gateway (last (r # rs))))"
proof (induction routes arbitrary: m)
  case Nil
  show ?case by simp
next
  case (Cons r routes)
  show ?case
    by (simp add: Cons.IH split: list.splits)
qed

section \<open>Reading the routing table\<close>

lemma readLines_no_newline: "CHR 0x0A \<notin> set tail \<Longrightarrow> readLines line tail = []"
  by (induction tail arbitrary: line) auto

lemma readLines_line:
  "CHR 0x0A \<notin> set l \<Longrightarrow>
     readLines line (l @ CHR 0x0A # rest) = (line @ l @ [CHR 0x0A]) # readLines [] rest"
  by (induction l arbitrary: line) auto


lemmas route_eval =
  GetRoutes_def Fields_def spaceWidth_def isAsciiSpace_def parseIP_def fromHexChar_def swap4_def

text \<open>
  C1. For every sequence of routes and every interface name, the index built by
  \<open>getDefaultRoutes\<close> has an entry for the name exactly when some route of that interface
  has the destination 0.0.0.0, and the entry is the gateway of the last such route; a
  destination equals 0.0.0.0 when it is these four bytes (or their 16-byte form, which
  \<open>parseIP\<close> never makes). For the rows \<open>(eth0, 00000000, 0101A8C0)\<close> and
  \<open>(eth0, 000011AC, 0101A8C0)\<close> the index is the single entry eth0 to 192.168.1.1.
\<close>

theorem getDefaultRoutes_last_write_wins:
  "defaultRoutesLoop Map.empty routes n =
     (case filter (\<lambda>r. Interface r = n \<and> Equal (Destination r) zero) routes of
        [] \<Rightarrow> None
      | r # rs \<Rightarrow> Some (Gateway (last (r # rs))))
   \<and> (Equal d zero \<longleftrightarrow> d = [0, 0, 0, 0] \<or> d = v4InV6Prefix @ [0, 0, 0, 0])
   \<and> getDefaultRoutes
        ''Iface Destination Gateway\<newline>eth0 00000000 0101A8C0\<newline>eth0 000011AC 0101A8C0\<newline>''
       = Inr [''eth0'' \<mapsto> [192, 168, 1, 1]]"
proof (intro conjI)
  show "defaultRoutesLoop Map.empty routes n =
     (case filter (\<lambda>r. Interface r = n \<and> Equal (Destination r) zero) routes of
        [] \<Rightarrow> None
      | r # rs \<Rightarrow> Some (Gateway (last (r # rs))))"
    by (simp add: defaultRoutesLoop_last)
  show "Equal d zero \<longleftrightarrow> d = [0, 0, 0, 0] \<or> d = v4InV6Prefix @ [0, 0, 0, 0]"
    using Equal_zero [of d] by (simp add: zero_def)
  have "GetRoutes
      ''Iface Destination Gateway\<newline>eth0 00000000 0101A8C0\<newline>eth0 000011AC 0101A8C0\<newline>''
    = Inr [\<lparr>Interface = ''eth0'', Destination = [0, 0, 0, 0], Gateway = [192, 168, 1, 1]\<rparr>,
           \<lparr>Interface = ''eth0'', Destination = [172, 17, 0, 0], Gateway = [192, 168, 1, 1]\<rparr>]"
    by (simp add: route_eval)
  then show "getDefaultRoutes
        ''Iface Destination Gateway\<newline>eth0 00000000 0101A8C0\<newline>eth0 000011AC 0101A8C0\<newline>''
       = Inr [''eth0'' \<mapsto> [192, 168, 1, 1]]"
    by (simp add: getDefaultRoutes_def Equal_def zero_def)
qed

text \<open>
  C9. When the input ends with a line that no newline terminates (\<open>tail\<close>, after a \<open>body\<close>
  that is empty or ends with a newline), \<open>GetRoutes\<close> returns what it returns for the body
  alone: the last line adds no route and no error, whatever it holds.
\<close>

theorem GetRoutes_unterminated_line:
  assumes "body = [] \<or> last body = CHR 0x0A" and "CHR 0x0A \<notin> set tail"
  shows "GetRoutes (body @ tail) = GetRoutes body"
proof (cases "body = []")
  case True
  with assms(2) show ?thesis
    by (simp add: GetRoutes_def readLines_no_newline)
next
  case False
  with assms(1) have "body = butlast body @ [CHR 0x0A]"
    using append_butlast_last_id [of body] by simp
  then obtain b where b: "body = b @ [CHR 0x0A]" ..
  have "readLines line (b @ CHR 0x0A # rest) = readLines line (b @ [CHR 0x0A]) @ readLines [] rest"
    for line rest
    by (induction b arbitrary: line) auto
  from this [of "[]" tail] assms(2) have "readLines [] (body @ tail) = readLines [] body"
    by (simp add: b readLines_no_newline)
  then show ?thesis by (simp add: GetRoutes_def)
qed

theorem GetRoutes_unterminated_line_witness:
  "GetRoutes (''Iface Destination Gateway\<newline>eth0 00000000 0101A8C0\<newline>'' @ ''eth1 AABB'')
     = Inr [\<lparr>Interface = ''eth0'', Destination = [0, 0, 0, 0], Gateway = [192, 168, 1, 1]\<rparr>]
   \<and> GetRoutes ''eth1 AABB'' = Inr []"
proof -
  have "GetRoutes ''Iface Destination Gateway\<newline>eth0 00000000 0101A8C0\<newline>''
     = Inr [\<lparr>Interface = ''eth0'', Destination = [0, 0, 0, 0], Gateway = [192, 168, 1, 1]\<rparr>]"
    by (simp add: route_eval)
  moreover have "GetRoutes [] = Inr []"
    by (simp add: GetRoutes_def)
  ultimately show ?thesis
    using GetRoutes_unterminated_line
        [of "''Iface Destination Gateway\<newline>eth0 00000000 0101A8C0\<newline>''" "''eth1 AABB''"]
      GetRoutes_unterminated_line [of "[]" "''eth1 AABB''"]
    by simp
qed

text \<open>
  C4 (as the spec states it, refuted). The number of fields is checked before the first line
  is skipped, so a header with fewer than three fields and no data line is an error.
\<close>

theorem GetRoutes_header_counterexample:
  "GetRoutes ''Iface\<newline>'' = Inl (WrongNumberOfFields 1 ''Iface\<newline>'')"
  by (simp add: route_eval)

text \<open>
  C4 (amended). For an input of one header line and no data line, \<open>GetRoutes\<close> returns the
  empty sequence when the header has at least three fields (or is not ended by a newline);
  a header ended by a newline with fewer than three fields is the wrong-number-of-fields
  error.
\<close>

theorem GetRoutes_header_only:
  assumes "CHR 0x0A \<notin> set hdr"
  shows "GetRoutes (hdr @ [CHR 0x0A]) =
      (if length (Fields (hdr @ [CHR 0x0A])) < 3
       then Inl (WrongNumberOfFields (length (Fields (hdr @ [CHR 0x0A]))) (hdr @ [CHR 0x0A]))
       else Inr [])
    \<and> GetRoutes hdr = Inr []"
proof -
  from assms have "readLines [] (hdr @ [CHR 0x0A]) = [hdr @ [CHR 0x0A]]"
    using readLines_line [of hdr "[]" "[]"] by simp
  moreover from assms have "readLines [] hdr = []"
    by (rule readLines_no_newline)
  ultimately show ?thesis
    by (simp add: GetRoutes_def Let_def)
qed

theorem GetRoutes_header_only_witness:
  "GetRoutes ''Iface	Destination	Gateway 	Flags	RefCnt	Use	Metric	Mask		MTU	Window	IRTT\<newline>'' = Inr []"
proof -
  have "CHR 0x0A \<notin> set ''Iface	Destination	Gateway 	Flags	RefCnt	Use	Metric	Mask		MTU	Window	IRTT''"
    by simp
  from GetRoutes_header_only [OF this] show ?thesis
    by (simp add: Fields_def spaceWidth_def isAsciiSpace_def)
qed


lemma readLines_concat:
  "\<forall>l\<in>set ls. isLine l \<Longrightarrow> CHR 0x0A \<notin> set tail \<Longrightarrow> readLines [] (concat ls @ tail) = ls"
proof (induction ls)
  case Nil
  then show ?case by (simp add: readLines_no_newline)
next
  case (Cons l ls)
  from Cons.prems(1) have "l = butlast l @ [CHR 0x0A]" "CHR 0x0A \<notin> set (butlast l)"
    using append_butlast_last_id [of l] by (simp_all add: isLine_def)
  then obtain b where b: "l = b @ [CHR 0x0A]" "CHR 0x0A \<notin> set b" by blast
  from Cons have "readLines [] (concat ls @ tail) = ls" by simp
  with readLines_line [OF b(2), of "[]" "concat ls @ tail"] show ?case
    by (simp add: b(1))
qed

lemma not_isl_iff: "\<not> isl x \<longleftrightarrow> (\<exists>y. x = Inr y)"
  by (cases x) auto

lemma parseIP_wrongLength: "wrongLength f \<Longrightarrow> parseIP f = Inl OnlyIPv4Supported"
  by (auto simp: wrongLength_def parseIP_def split: sum.splits)

lemma parseIP_decodes:
  "\<not> isl (DecodeString f) \<Longrightarrow> \<not> wrongLength f \<Longrightarrow> \<not> isl (parseIP f)"
  by (auto simp: wrongLength_def parseIP_def split: sum.splits)

lemma scanLoop_header:
  "scanLoop 0 [] (hdr # ls) =
     (if length (Fields hdr) < 3 then Inl (WrongNumberOfFields (length (Fields hdr)) hdr)
      else scanLoop 1 [] ls)"
  by (simp add: Let_def)

lemma scanLoop_wrong_length_fails:
  "0 < n \<Longrightarrow> hasWrongLengthField bad \<Longrightarrow> bad \<in> set ls \<Longrightarrow> isl (scanLoop n routes ls)"
proof (induction ls arbitrary: n routes)
  case Nil
  then show ?case by simp
next
  case (Cons l ls)
  show ?case
  proof (cases "l = bad")
    case True
    with Cons.prems(1,2) show ?thesis
      by (auto simp: hasWrongLengthField_def Let_def parseIP_wrongLength split: sum.splits)
  next
    case False
    with Cons.prems have "isl (scanLoop (n + 1) routes' ls)" for routes'
      using Cons.IH [of "n + 1" routes'] by simp
    with Cons.prems(1) show ?thesis
      by (auto simp: Let_def split: sum.splits)
  qed
qed

lemma scanLoop_parsed_lines:
  "0 < n \<Longrightarrow> \<forall>l\<in>set good. parsesLine l \<Longrightarrow>
     \<exists>routes'. scanLoop n routes (good @ rest) = scanLoop (n + length good) routes' rest"
proof (induction good arbitrary: n routes)
  case Nil
  show ?case by auto
next
  case (Cons l good)
  from Cons.prems(2) obtain dst gw where l: "3 \<le> length (Fields l)"
      "parseIP (Fields l ! 1) = Inr dst" "parseIP (Fields l ! 2) = Inr gw"
    by (auto simp: parsesLine_def Let_def not_isl_iff)
  from Cons.prems have "\<exists>routes'. scanLoop (n + 1) r (good @ rest)
      = scanLoop (n + 1 + length good) routes' rest" for r
    using Cons.IH [of "n + 1" r] by simp
  with Cons.prems(1) l show ?case
    by (simp add: Let_def)
qed

lemma scanLoop_wrong_length_first:
  assumes "0 < n" and "hasWrongLengthField bad" and "3 \<le> length (Fields bad)"
    and "\<not> isl (DecodeString (Fields bad ! 1))"
  shows "scanLoop n routes (bad # rest) = Inl OnlyIPv4Supported"
proof (cases "wrongLength (Fields bad ! 1)")
  case True
  with assms(1,3) show ?thesis
    by (simp add: Let_def parseIP_wrongLength)
next
  case False
  with assms(4) have "\<not> isl (parseIP (Fields bad ! 1))" by (simp add: parseIP_decodes)
  then obtain dst where "parseIP (Fields bad ! 1) = Inr dst" by (cases "parseIP (Fields bad ! 1)") auto
  moreover from False assms(2) have "wrongLength (Fields bad ! 2)"
    by (auto simp: hasWrongLengthField_def Let_def)
  ultimately show ?thesis
    using assms(1,3) by (simp add: Let_def parseIP_wrongLength)
qed

text \<open>
  C2 (as the spec states it, refuted). The field \<open>AABB\<close> decodes to two bytes. On a last
  line with no newline it is never looked at and the read succeeds; after a line with one
  field the read fails with the wrong-number-of-fields error; as a gateway after a
  destination that is not hexadecimal the read fails with the decoder's error.
\<close>

theorem GetRoutes_wrong_length_counterexample:
  "wrongLength ''AABB''
   \<and> GetRoutes ''Iface Destination Gateway\<newline>eth0 AABB 0101A8C0'' = Inr []
   \<and> GetRoutes ''Iface Destination Gateway\<newline>lo\<newline>eth0 AABB 0101A8C0\<newline>''
       = Inl (WrongNumberOfFields 1 ''lo\<newline>'')
   \<and> GetRoutes ''Iface Destination Gateway\<newline>eth0 0G000000 AABB\<newline>''
       = Inl (InvalidByteError (CHR ''G''))"
  by (simp add: route_eval wrongLength_def)

lemma lineError_wrong_length: "hasWrongLengthField l \<Longrightarrow> lineError l \<noteq> None"
  by (auto simp: hasWrongLengthField_def lineError_def Let_def parseIP_wrongLength
      split: sum.splits)

lemma scanLoop_line_error:
  "0 < n \<Longrightarrow> lineError l = Some e \<Longrightarrow> scanLoop n routes (l # ls) = Inl e"
  by (auto simp: lineError_def Let_def split: if_splits sum.splits)

lemma scanLoop_line_ok:
  "0 < n \<Longrightarrow> lineError l = None \<Longrightarrow>
     \<exists>routes'. scanLoop n routes (l # ls) = scanLoop (n + 1) routes' ls"
  by (auto simp: lineError_def Let_def split: if_splits sum.splits)

lemma scanLoop_first_error:
  "0 < n \<Longrightarrow> List.find (\<lambda>l. lineError l \<noteq> None) ls = Some l \<Longrightarrow> lineError l = Some e \<Longrightarrow>
     scanLoop n routes ls = Inl e"
proof (induction ls arbitrary: n routes)
  case Nil
  then show ?case by simp
next
  case (Cons l' ls)
  show ?case
  proof (cases "lineError l'")
    case None
    with Cons.prems(2) have f: "List.find (\<lambda>l. lineError l \<noteq> None) ls = Some l" by simp
    from scanLoop_line_ok [OF Cons.prems(1) None, of routes ls] obtain routes'
      where "scanLoop n routes (l' # ls) = scanLoop (n + 1) routes' ls" ..
    with Cons.IH [OF _ f Cons.prems(3), of "n + 1" routes'] show ?thesis by simp
  next
    case (Some e')
    with Cons.prems(2) have "l = l'" by simp
    with Some Cons.prems(3) have "lineError l' = Some e" by simp
    with Cons.prems(1) show ?thesis by (rule scanLoop_line_error)
  qed
qed

text \<open>
  C2 (amended). When a newline-terminated line after the header has a destination or a
  gateway that decodes to other than four bytes, \<open>GetRoutes\<close> fails and returns no route.
  The error is \<open>OnlyIPv4Supported\<close> when nothing fails before that field: the header and the
  line have at least three fields, the data lines before it parse, and the line's
  destination is hexadecimal. Otherwise it is the error of the earlier failure: the
  wrong-number-of-fields error of the header when the header has fewer than three fields,
  else the error of the first line after the header on which the loop body fails (its
  field count, else its destination, else its gateway).
\<close>

theorem GetRoutes_wrong_length:
  assumes "content = concat (hdr # good @ bad # rest) @ tail"
    and "\<forall>l\<in>set (hdr # good @ bad # rest). isLine l"
    and "CHR 0x0A \<notin> set tail"
    and "hasWrongLengthField bad"
  shows "isl (GetRoutes content)
    \<and> (3 \<le> length (Fields hdr) \<and> (\<forall>l\<in>set good. parsesLine l)
         \<and> 3 \<le> length (Fields bad) \<and> \<not> isl (DecodeString (Fields bad ! 1))
       \<longrightarrow> GetRoutes content = Inl OnlyIPv4Supported)
    \<and> (\<exists>l e. List.find (\<lambda>l. lineError l \<noteq> None) (good @ bad # rest) = Some l
          \<and> lineError l = Some e
          \<and> GetRoutes content =
              Inl (if length (Fields hdr) < 3
                   then WrongNumberOfFields (length (Fields hdr)) hdr else e))"
proof -
  from assms(1-3) have lines: "readLines [] content = hdr # good @ bad # rest"
    using readLines_concat [of "hdr # good @ bad # rest" tail] by simp
  have "isl (scanLoop 1 [] (good @ bad # rest))"
    using scanLoop_wrong_length_fails [of 1 bad "good @ bad # rest" "[]"] assms(4) by simp
  then have fails: "isl (GetRoutes content)"
    by (simp add: GetRoutes_def lines Let_def)
  have only: "GetRoutes content = Inl OnlyIPv4Supported"
    if h: "3 \<le> length (Fields hdr)" and g: "\<forall>l\<in>set good. parsesLine l"
      and b: "3 \<le> length (Fields bad)" "\<not> isl (DecodeString (Fields bad ! 1))"
  proof -
    from g obtain routes' where "scanLoop 1 [] (good @ bad # rest)
        = scanLoop (1 + length good) routes' (bad # rest)"
      using scanLoop_parsed_lines [of 1 good "[]" "bad # rest"] by auto
    also have "\<dots> = Inl OnlyIPv4Supported"
      using scanLoop_wrong_length_first [OF _ assms(4) b] by simp
    finally show ?thesis
      using h by (simp add: GetRoutes_def lines Let_def)
  qed
  have "List.find (\<lambda>l. lineError l \<noteq> None) (good @ bad # rest) \<noteq> None"
    using lineError_wrong_length [OF assms(4)] by (auto simp: find_None_iff)
  then obtain l where l: "List.find (\<lambda>l. lineError l \<noteq> None) (good @ bad # rest) = Some l"
    by auto
  then have "lineError l \<noteq> None" by (auto simp: find_Some_iff)
  then obtain e where e: "lineError l = Some e" by auto
  have "scanLoop 1 [] (good @ bad # rest) = Inl e"
    using scanLoop_first_error [OF _ l e, of 1 "[]"] by simp
  then have "GetRoutes content =
      Inl (if length (Fields hdr) < 3 then WrongNumberOfFields (length (Fields hdr)) hdr else e)"
    by (simp add: GetRoutes_def lines Let_def)
  with l e have first: "\<exists>l e. List.find (\<lambda>l. lineError l \<noteq> None) (good @ bad # rest) = Some l
          \<and> lineError l = Some e
          \<and> GetRoutes content =
              Inl (if length (Fields hdr) < 3
                   then WrongNumberOfFields (length (Fields hdr)) hdr else e)"
    by blast
  from fails only first show ?thesis by blast
qed

theorem GetRoutes_wrong_length_witness:
  "GetRoutes ''Iface Destination Gateway\<newline>eth0 00000000 0101A8C0\<newline>eth1 000011AC AABB\<newline>eth2 0 0\<newline>''
     = Inl OnlyIPv4Supported
   \<and> hasWrongLengthField ''eth0 AAB AABB\<newline>''
   \<and> GetRoutes ''Iface Destination Gateway\<newline>eth0 AAB AABB\<newline>'' = Inl ErrLength"
proof -
  have c: "''Iface Destination Gateway\<newline>eth0 00000000 0101A8C0\<newline>eth1 000011AC AABB\<newline>eth2 0 0\<newline>''
      = concat (''Iface Destination Gateway\<newline>'' # [''eth0 00000000 0101A8C0\<newline>'']
          @ ''eth1 000011AC AABB\<newline>'' # [''eth2 0 0\<newline>'']) @ []"
    by simp
  have l: "\<forall>l\<in>set (''Iface Destination Gateway\<newline>'' # [''eth0 00000000 0101A8C0\<newline>'']
          @ ''eth1 000011AC AABB\<newline>'' # [''eth2 0 0\<newline>'']). isLine l"
    by (simp add: isLine_def)
  have t: "CHR 0x0A \<notin> set []" by simp
  have f: "Fields ''Iface Destination Gateway\<newline>'' = [''Iface'', ''Destination'', ''Gateway'']"
      "Fields ''eth0 00000000 0101A8C0\<newline>'' = [''eth0'', ''00000000'', ''0101A8C0'']"
      "Fields ''eth1 000011AC AABB\<newline>'' = [''eth1'', ''000011AC'', ''AABB'']"
      "Fields ''eth0 AAB AABB\<newline>'' = [''eth0'', ''AAB'', ''AABB'']"
    by (simp_all add: Fields_def spaceWidth_def isAsciiSpace_def)
  have w: "hasWrongLengthField ''eth1 000011AC AABB\<newline>''"
    by (simp add: hasWrongLengthField_def f wrongLength_def fromHexChar_def)
  have g: "\<forall>l\<in>set [''eth0 00000000 0101A8C0\<newline>'']. parsesLine l"
    by (simp add: parsesLine_def f parseIP_def fromHexChar_def)
  have d: "\<not> isl (DecodeString (Fields ''eth1 000011AC AABB\<newline>'' ! 1))"
    by (simp add: f fromHexChar_def)
  from GetRoutes_wrong_length [OF c l t w] f g d
  have first: "GetRoutes ''Iface Destination Gateway\<newline>eth0 00000000 0101A8C0\<newline>eth1 000011AC AABB\<newline>eth2 0 0\<newline>''
     = Inl OnlyIPv4Supported"
    by simp
  have c2: "''Iface Destination Gateway\<newline>eth0 AAB AABB\<newline>''
      = concat (''Iface Destination Gateway\<newline>'' # [] @ ''eth0 AAB AABB\<newline>'' # []) @ []"
    by simp
  have l2: "\<forall>l\<in>set (''Iface Destination Gateway\<newline>'' # [] @ ''eth0 AAB AABB\<newline>'' # []). isLine l"
    by (simp add: isLine_def)
  have w2: "hasWrongLengthField ''eth0 AAB AABB\<newline>''"
    by (simp add: hasWrongLengthField_def f wrongLength_def fromHexChar_def)
  have e2: "lineError ''eth0 AAB AABB\<newline>'' = Some ErrLength"
    by (simp add: lineError_def f parseIP_def fromHexChar_def)
  from GetRoutes_wrong_length [OF c2 l2 t w2] e2 f(1)
  have "GetRoutes ''Iface Destination Gateway\<newline>eth0 AAB AABB\<newline>'' = Inl ErrLength"
    by auto
  with first w2 show ?thesis by simp
qed

section \<open>The local addresses\<close>

lemma hwString_empty: "hwString a = [] \<longleftrightarrow> a = []"
  by (cases a) (simp_all add: hwString_def)

lemma addrsLoop_list:
  "snd (addrsLoop logs interfaceList ifaces) =
     interfaceList
     @ concat (map (\<lambda>i. case Addrs i of
                        Inl err \<Rightarrow> []
                      | Inr addrs \<Rightarrow>
                          map (\<lambda>a. \<lparr>name = Name i, mac = hwString (HardwareAddr i), addr = a\<rparr>)
                            addrs)
         (filter (\<lambda>i. HardwareAddr i \<noteq> []) ifaces))"
  by (induction ifaces arbitrary: logs interfaceList)
    (simp_all add: hwString_empty split: sum.splits)

text \<open>
  C7. For every list of system interfaces, \<open>localAddresses\<close> returns no error and the
  records of the interfaces with a non-empty hardware address, in the order of the
  interfaces: one record for every address the interface's \<^verbatim>\<open>Addrs\<close> call lists (none when
  that call fails), carrying the interface's name and hardware address. In the example
  system (\<open>eth0\<close> with a hardware address and 10.0.0.2/24, \<open>lo\<close> with no hardware address)
  the result is the one record of \<open>eth0\<close>.
\<close>

theorem localAddresses_flat:
  "fst (snd (localAddresses (Inr ifaces))) =
     concat (map (\<lambda>i. case Addrs i of
                        Inl err \<Rightarrow> []
                      | Inr addrs \<Rightarrow>
                          map (\<lambda>a. \<lparr>name = Name i, mac = hwString (HardwareAddr i), addr = a\<rparr>)
                            addrs)
         (filter (\<lambda>i. HardwareAddr i \<noteq> []) ifaces))
   \<and> snd (snd (localAddresses (Inr ifaces))) = None
   \<and> fst (snd (localAddresses (Interfaces (exampleEnv result))))
       = [\<lparr>name = ''eth0'', mac = ''aa:bb:cc:dd:ee:ff'', addr = ''10.0.0.2/24''\<rparr>]"
proof (intro conjI)
  show "fst (snd (localAddresses (Inr ifaces))) =
     concat (map (\<lambda>i. case Addrs i of
                        Inl err \<Rightarrow> []
                      | Inr addrs \<Rightarrow>
                          map (\<lambda>a. \<lparr>name = Name i, mac = hwString (HardwareAddr i), addr = a\<rparr>)
                            addrs)
         (filter (\<lambda>i. HardwareAddr i \<noteq> []) ifaces))"
    using addrsLoop_list [of "[]" "[]" ifaces]
    by (auto simp: localAddresses_def split: prod.splits)
  show "snd (snd (localAddresses (Inr ifaces))) = None"
    by (simp add: localAddresses_def split: prod.splits)
  show "fst (snd (localAddresses (Interfaces (exampleEnv result))))
       = [\<lparr>name = ''eth0'', mac = ''aa:bb:cc:dd:ee:ff'', addr = ''10.0.0.2/24''\<rparr>]"
    by (simp add: exampleEnv_def localAddresses_def hwString_def hextable_def)
qed

section \<open>The dispatcher\<close>

lemma To4_length: "To4 ip = Some p4 \<Longrightarrow> length p4 = 4 \<and> (length ip = 4 \<or> length ip = 16)"
  by (auto simp: To4_def split: if_splits)

lemma ipString_To4: "To4 ip = Some p4 \<Longrightarrow> ipString s6 ip = dottedQuad p4"
  using To4_length [of ip p4] by (auto simp: ipString_def)


lemma dispatch_Exec:
  "Exec args \<in> set (dispatch e idx k ifaces) \<Longrightarrow>
     \<exists>i\<in>set ifaces. \<exists>src gw. To4 (ParseCIDR e (addr i)) = Some src \<and> idx (name i) = Some gw
       \<and> args = arpingArgs (name i) (dottedQuad src) (ipString (string6 e) gw)"
proof (induction ifaces arbitrary: k)
  case Nil
  then show ?case by simp
next
  case (Cons i ifaces)
  show ?case
  proof (cases "To4 (ParseCIDR e (addr i))")
    case None
    with Cons show ?thesis by (auto simp: Let_def)
  next
    case (Some src)
    note src = this
    show ?thesis
    proof (cases "idx (name i)")
      case None
      with src Cons show ?thesis by (auto simp: Let_def)
    next
      case (Some gw)
      with src Cons.prems have "args = arpingArgs (name i) (dottedQuad src) (ipString (string6 e) gw)
          \<or> Exec args \<in> set (dispatch e idx (k + 1) ifaces)"
        by (auto simp: Let_def ipString_To4 split: prod.splits option.splits)
      with src Some Cons.IH show ?thesis by auto
    qed
  qed
qed

section \<open>The decimal digits of a byte\<close>

















section \<open>Gateways of the index\<close>




section \<open>The runs of the external tool\<close>

lemma dispatch_skip:
  "To4 (ParseCIDR e (addr j)) = None \<or> idx (name j) = None \<Longrightarrow>
     \<exists>msg. dispatch e idx k (j # rest) = Log msg # dispatch e idx k rest"
  by (auto simp: Let_def split: option.splits)

lemma dispatch_eligible:
  assumes "To4 (ParseCIDR e (addr i)) = Some src" and "idx (name i) = Some gw"
  shows "\<exists>msg. dispatch e idx k (i # rest) =
       Log msg # Exec (arpingArgs (name i) (dottedQuad src) (ipString (string6 e) gw)) #
         (case arping e k (arpingArgs (name i) (dottedQuad src) (ipString (string6 e) gw)) of
            StartFailed m \<Rightarrow> [LogCmdError (StartError m), Exit 1]
          | Exited status out err \<Rightarrow>
              if status = 0 then Stdout (out @ ''\<newline>'') # dispatch e idx (k + 1) rest
              else [LogCmdError (ExitError status), Exit 1])"
  using assms by (auto simp: Let_def ipString_To4 split: cmdResult.splits)

lemmas dispatch_eval =
  Let_def exampleEnv_def To4_def v4InV6Prefix_def ipString_def dottedQuad_def appendDecimal_def
  digits_def arpingArgs_def word_le_nat_alt

text \<open>
  C5. Every run of the tool in the dispatcher's trace belongs to an address of the list whose
  text parses to an IPv4 address and whose interface has an entry in the index, and its
  arguments are made from that address and that entry. An address whose interface has no
  entry, or whose text is no IPv4 address, adds one log line and nothing else, and the
  dispatcher goes on with the addresses after it.
\<close>

theorem dispatch_only_eligible:
  "(Exec args \<in> set (dispatch e idx k ifaces) \<longrightarrow>
      (\<exists>i\<in>set ifaces. \<exists>src gw. To4 (ParseCIDR e (addr i)) = Some src \<and> idx (name i) = Some gw
         \<and> args = arpingArgs (name i) (dottedQuad src) (ipString (string6 e) gw)))
   \<and> (idx (name j) = None \<longrightarrow>
        (\<exists>msg. dispatch e idx k (j # rest) = Log msg # dispatch e idx k rest))
   \<and> (To4 (ParseCIDR e (addr j)) = None \<longrightarrow>
        (\<exists>msg. dispatch e idx k (j # rest) = Log msg # dispatch e idx k rest))"
  using dispatch_Exec [of args e idx k ifaces] dispatch_skip [of e j idx k rest]
  by blast

theorem dispatch_only_eligible_witness:
  "Exec [''-U'', ''-c'', ''1'', ''-I'', ''eth0'', ''-s'', ''10.0.0.2'', ''10.0.0.1'']
     \<in> set (dispatch (exampleEnv (Exited 0 ''reply'' ''warning'')) [''eth0'' \<mapsto> [10, 0, 0, 1]] 0
          [\<lparr>name = ''eth1'', mac = ''aa:bb:cc:dd:ee:00'', addr = ''10.0.0.2/24''\<rparr>,
           \<lparr>name = ''eth0'', mac = ''aa:bb:cc:dd:ee:ff'', addr = ''fe80::1/64''\<rparr>,
           \<lparr>name = ''eth0'', mac = ''aa:bb:cc:dd:ee:ff'', addr = ''10.0.0.2/24''\<rparr>])
   \<and> To4 (ParseCIDR (exampleEnv (Exited 0 ''reply'' ''warning'')) ''10.0.0.2/24'') = Some [10, 0, 0, 2]
   \<and> [''eth0'' \<mapsto> [10, 0, 0, 1 :: byte]] ''eth1'' = None
   \<and> To4 (ParseCIDR (exampleEnv (Exited 0 ''reply'' ''warning'')) ''fe80::1/64'') = None
   \<and> (\<exists>msg. dispatch (exampleEnv (Exited 0 ''reply'' ''warning'')) [''eth0'' \<mapsto> [10, 0, 0, 1]] 0
          [\<lparr>name = ''eth1'', mac = ''aa:bb:cc:dd:ee:00'', addr = ''10.0.0.2/24''\<rparr>,
           \<lparr>name = ''eth0'', mac = ''aa:bb:cc:dd:ee:ff'', addr = ''fe80::1/64''\<rparr>,
           \<lparr>name = ''eth0'', mac = ''aa:bb:cc:dd:ee:ff'', addr = ''10.0.0.2/24''\<rparr>]
        = Log msg # dispatch (exampleEnv (Exited 0 ''reply'' ''warning'')) [''eth0'' \<mapsto> [10, 0, 0, 1]] 0
          [\<lparr>name = ''eth0'', mac = ''aa:bb:cc:dd:ee:ff'', addr = ''fe80::1/64''\<rparr>,
           \<lparr>name = ''eth0'', mac = ''aa:bb:cc:dd:ee:ff'', addr = ''10.0.0.2/24''\<rparr>])"
proof -
  let ?e = "exampleEnv (Exited 0 ''reply'' ''warning'')"
  let ?idx = "[''eth0'' \<mapsto> [10, 0, 0, 1 :: byte]]"
  let ?j = "\<lparr>name = ''eth1'', mac = ''aa:bb:cc:dd:ee:00'', addr = ''10.0.0.2/24''\<rparr>"
  let ?rest = "[\<lparr>name = ''eth0'', mac = ''aa:bb:cc:dd:ee:ff'', addr = ''fe80::1/64''\<rparr>,
           \<lparr>name = ''eth0'', mac = ''aa:bb:cc:dd:ee:ff'', addr = ''10.0.0.2/24''\<rparr>]"
  have ex: "Exec [''-U'', ''-c'', ''1'', ''-I'', ''eth0'', ''-s'', ''10.0.0.2'', ''10.0.0.1'']
     \<in> set (dispatch ?e ?idx 0 (?j # ?rest))"
    by (simp add: dispatch_eval)
  have t: "To4 (ParseCIDR ?e ''10.0.0.2/24'') = Some [10, 0, 0, 2]"
      "To4 (ParseCIDR ?e ''fe80::1/64'') = None" "?idx ''eth1'' = None"
    by (simp_all add: dispatch_eval)
  from dispatch_only_eligible
    [of "[''-U'', ''-c'', ''1'', ''-I'', ''eth0'', ''-s'', ''10.0.0.2'', ''10.0.0.1'']"
      ?e ?idx 0 "?j # ?rest" ?j ?rest] ex t
  show ?thesis by simp
qed


lemma execs_dispatch_head:
  assumes "To4 (ParseCIDR e (addr i)) = Some src" and "idx (name i) = Some gw"
  shows "\<exists>rest'. execs (dispatch e idx k (i # rest))
      = arpingArgs (name i) (dottedQuad src) (ipString (string6 e) gw) # rest'"
proof -
  from assms dispatch_eligible [of e i src idx gw k rest] obtain msg tl' where
    "dispatch e idx k (i # rest)
      = Log msg # Exec (arpingArgs (name i) (dottedQuad src) (ipString (string6 e) gw)) # tl'"
    by blast
  then show ?thesis by simp
qed

lemma execs_dispatch_all:
  assumes "\<forall>k args. snd (Output (arping e k args)) = None"
  shows "execs (dispatch e idx k ifaces) =
     map (\<lambda>i. arpingArgs (name i) (dottedQuad (the (To4 (ParseCIDR e (addr i)))))
                (ipString (string6 e) (the (idx (name i)))))
       (filter (\<lambda>i. To4 (ParseCIDR e (addr i)) \<noteq> None \<and> idx (name i) \<noteq> None) ifaces)"
proof (induction ifaces arbitrary: k)
  case Nil
  show ?case by simp
next
  case (Cons i ifaces)
  show ?case
  proof (cases "To4 (ParseCIDR e (addr i)) \<noteq> None \<and> idx (name i) \<noteq> None")
    case False
    then have "To4 (ParseCIDR e (addr i)) = None \<or> idx (name i) = None" by simp
    with dispatch_skip [of e i idx k ifaces] obtain msg
      where "dispatch e idx k (i # ifaces) = Log msg # dispatch e idx k ifaces" by blast
    with False Cons.IH [of k] show ?thesis by auto
  next
    case True
    then obtain src gw where el: "To4 (ParseCIDR e (addr i)) = Some src" "idx (name i) = Some gw"
      by auto
    let ?args = "arpingArgs (name i) (dottedQuad src) (ipString (string6 e) gw)"
    from assms have "snd (Output (arping e k ?args)) = None" by blast
    then obtain out err where "arping e k ?args = Exited 0 out err"
      by (cases "arping e k ?args") (auto split: if_splits)
    with el dispatch_eligible [of e i src idx gw k ifaces] obtain msg where
      "dispatch e idx k (i # ifaces)
        = Log msg # Exec ?args # Stdout (out @ ''\<newline>'') # dispatch e idx (k + 1) ifaces"
      by auto
    with el Cons.IH [of "k + 1"] show ?thesis by simp
  qed
qed

text \<open>
  C6. An eligible address at the head of the list makes the next run of the tool, with the
  arguments \<open>-U -c 1 -I name -s source gateway\<close>; when no run fails, the runs of the trace
  are these arguments for the eligible addresses, in order. For 10.0.0.2/24 on \<open>eth0\<close> with
  the gateway 10.0.0.1 the arguments are \<open>-U -c 1 -I eth0 -s 10.0.0.2 10.0.0.1\<close>.
\<close>

theorem dispatch_arping_args:
  "(To4 (ParseCIDR e (addr i)) = Some src \<and> idx (name i) = Some gw \<longrightarrow>
      (\<exists>rest'. execs (dispatch e idx k (i # rest))
         = [''-U'', ''-c'', ''1'', ''-I'', name i, ''-s'', dottedQuad src, ipString (string6 e) gw]
           # rest'))
   \<and> ((\<forall>k args. snd (Output (arping e k args)) = None) \<longrightarrow>
        execs (dispatch e idx k ifaces) =
          map (\<lambda>i. [''-U'', ''-c'', ''1'', ''-I'', name i, ''-s'',
                      dottedQuad (the (To4 (ParseCIDR e (addr i)))),
                      ipString (string6 e) (the (idx (name i)))])
            (filter (\<lambda>i. To4 (ParseCIDR e (addr i)) \<noteq> None \<and> idx (name i) \<noteq> None) ifaces))
   \<and> (ParseCIDR e ''10.0.0.2/24'' = v4InV6Prefix @ [10, 0, 0, 2] \<longrightarrow>
        execs (dispatch e [''eth0'' \<mapsto> [10, 0, 0, 1]] k
                 [\<lparr>name = ''eth0'', mac = m, addr = ''10.0.0.2/24''\<rparr>])
          = [[''-U'', ''-c'', ''1'', ''-I'', ''eth0'', ''-s'', ''10.0.0.2'', ''10.0.0.1'']])"
proof (intro conjI impI)
  assume "To4 (ParseCIDR e (addr i)) = Some src \<and> idx (name i) = Some gw"
  then show "\<exists>rest'. execs (dispatch e idx k (i # rest))
         = [''-U'', ''-c'', ''1'', ''-I'', name i, ''-s'', dottedQuad src, ipString (string6 e) gw]
           # rest'"
    using execs_dispatch_head [of e i src idx gw k rest] by (simp add: arpingArgs_def)
next
  assume "\<forall>k args. snd (Output (arping e k args)) = None"
  then show "execs (dispatch e idx k ifaces) =
          map (\<lambda>i. [''-U'', ''-c'', ''1'', ''-I'', name i, ''-s'',
                      dottedQuad (the (To4 (ParseCIDR e (addr i)))),
                      ipString (string6 e) (the (idx (name i)))])
            (filter (\<lambda>i. To4 (ParseCIDR e (addr i)) \<noteq> None \<and> idx (name i) \<noteq> None) ifaces)"
    using execs_dispatch_all [of e idx k ifaces] by (simp add: arpingArgs_def)
next
  assume p: "ParseCIDR e ''10.0.0.2/24'' = v4InV6Prefix @ [10, 0, 0, 2]"
  let ?i = "\<lparr>name = ''eth0'', mac = m, addr = ''10.0.0.2/24''\<rparr>"
  let ?idx = "[''eth0'' \<mapsto> [10, 0, 0, 1 :: byte]]"
  from p have el: "To4 (ParseCIDR e (addr ?i)) = Some [10, 0, 0, 2]" "?idx (name ?i) = Some [10, 0, 0, 1]"
    by (simp_all add: To4_def v4InV6Prefix_def)
  have s: "dottedQuad [10, 0, 0, 2] = ''10.0.0.2''" "ipString (string6 e) [10, 0, 0, 1] = ''10.0.0.1''"
    by (simp_all add: dispatch_eval)
  from el dispatch_eligible [of e ?i "[10, 0, 0, 2]" ?idx "[10, 0, 0, 1]" k "[]"] obtain msg where
    "dispatch e ?idx k [?i] = Log msg # Exec (arpingArgs ''eth0'' ''10.0.0.2'' ''10.0.0.1'') #
         (case arping e k (arpingArgs ''eth0'' ''10.0.0.2'' ''10.0.0.1'') of
            StartFailed m \<Rightarrow> [LogCmdError (StartError m), Exit 1]
          | Exited status out err \<Rightarrow>
              if status = 0 then Stdout (out @ ''\<newline>'') # dispatch e ?idx (k + 1) []
              else [LogCmdError (ExitError status), Exit 1])"
    unfolding s by auto
  then show "execs (dispatch e ?idx k [?i])
          = [[''-U'', ''-c'', ''1'', ''-I'', ''eth0'', ''-s'', ''10.0.0.2'', ''10.0.0.1'']]"
    by (simp add: arpingArgs_def split: cmdResult.splits)
qed

theorem dispatch_arping_args_witness:
  "To4 (ParseCIDR (exampleEnv (Exited 0 ''reply'' ''warning'')) ''10.0.0.2/24'') = Some [10, 0, 0, 2]
   \<and> snd (Output (Exited 0 ''reply'' ''warning'')) = None
   \<and> execs (dispatch (exampleEnv (Exited 0 ''reply'' ''warning'')) [''eth0'' \<mapsto> [10, 0, 0, 1]] 0
        [\<lparr>name = ''eth0'', mac = ''aa:bb:cc:dd:ee:ff'', addr = ''10.0.0.2/24''\<rparr>])
       = [[''-U'', ''-c'', ''1'', ''-I'', ''eth0'', ''-s'', ''10.0.0.2'', ''10.0.0.1'']]"
proof -
  let ?e = "exampleEnv (Exited 0 ''reply'' ''warning'')"
  have f: "To4 (ParseCIDR ?e ''10.0.0.2/24'') = Some [10, 0, 0, 2]"
      "snd (Output (Exited 0 ''reply'' ''warning'')) = None"
    by (simp_all add: dispatch_eval)
  have p: "ParseCIDR ?e ''10.0.0.2/24'' = v4InV6Prefix @ [10, 0, 0, 2]"
    by (simp add: exampleEnv_def)
  from p dispatch_arping_args [of ?e "\<lparr>name = ''eth0'', mac = ''aa:bb:cc:dd:ee:ff'', addr = ''10.0.0.2/24''\<rparr>"
      "[10, 0, 0, 2]" "[''eth0'' \<mapsto> [10, 0, 0, 1]]" "[10, 0, 0, 1]" 0 "[]"
      "[\<lparr>name = ''eth0'', mac = ''aa:bb:cc:dd:ee:ff'', addr = ''10.0.0.2/24''\<rparr>]" "''aa:bb:cc:dd:ee:ff''"]
  have "execs (dispatch ?e [''eth0'' \<mapsto> [10, 0, 0, 1]] 0
        [\<lparr>name = ''eth0'', mac = ''aa:bb:cc:dd:ee:ff'', addr = ''10.0.0.2/24''\<rparr>])
       = [[''-U'', ''-c'', ''1'', ''-I'', ''eth0'', ''-s'', ''10.0.0.2'', ''10.0.0.1'']]"
    by blast
  with f show ?thesis by blast
qed


lemmas main_eval =
  main_def getDefaultRoutes_def route_eval Equal_def zero_def localAddresses_def hwString_def
  hextable_def dispatch_eval

text \<open>
  C8 (as the spec states it, refuted). \<^verbatim>\<open>Cmd.Output\<close> returns the standard output only. In
  the example system a run that writes \<open>reply\<close> to its standard output and \<open>warning\<close> to its
  standard error has only \<open>reply\<close> printed, and when it exits with status 1 nothing of its
  output is printed: the error is logged and the program exits.
\<close>

theorem dispatch_output_counterexample:
  "main (exampleEnv (Exited 0 ''reply'' ''warning''))
     = [Log ''Executing: arping -U -c 1 -I eth0 -s 10.0.0.2 10.0.0.1\<newline>'',
        Exec [''-U'', ''-c'', ''1'', ''-I'', ''eth0'', ''-s'', ''10.0.0.2'', ''10.0.0.1''],
        Stdout ''reply\<newline>'']
   \<and> main (exampleEnv (Exited 1 ''reply'' ''warning''))
     = [Log ''Executing: arping -U -c 1 -I eth0 -s 10.0.0.2 10.0.0.1\<newline>'',
        Exec [''-U'', ''-c'', ''1'', ''-I'', ''eth0'', ''-s'', ''10.0.0.2'', ''10.0.0.1''],
        LogCmdError (ExitError 1),
        Exit 1]"
  by (simp add: main_eval)

text \<open>
  C8 (amended). After the run for an eligible address, the dispatcher prints the tool's
  standard output followed by a newline when the run exits with status 0, and goes on; the
  standard error is never printed. When the run does not start or exits with another status,
  it logs the error and exits with status 1 without printing the output.
\<close>

theorem dispatch_output:
  assumes "To4 (ParseCIDR e (addr i)) = Some src" and "idx (name i) = Some gw"
  shows "\<exists>msg. dispatch e idx k (i # rest) =
       Log msg # Exec (arpingArgs (name i) (dottedQuad src) (ipString (string6 e) gw)) #
         (case arping e k (arpingArgs (name i) (dottedQuad src) (ipString (string6 e) gw)) of
            StartFailed m \<Rightarrow> [LogCmdError (StartError m), Exit 1]
          | Exited status out err \<Rightarrow>
              if status = 0 then Stdout (out @ ''\<newline>'') # dispatch e idx (k + 1) rest
              else [LogCmdError (ExitError status), Exit 1])"
  using assms by (rule dispatch_eligible)

theorem dispatch_output_witness:
  "To4 (ParseCIDR (exampleEnv (Exited 0 ''reply'' ''warning'')) ''10.0.0.2/24'') = Some [10, 0, 0, 2]
   \<and> (\<exists>msg. dispatch (exampleEnv (Exited 0 ''reply'' ''warning'')) [''eth0'' \<mapsto> [10, 0, 0, 1]] 0
         [\<lparr>name = ''eth0'', mac = ''aa:bb:cc:dd:ee:ff'', addr = ''10.0.0.2/24''\<rparr>]
       = [Log msg,
          Exec [''-U'', ''-c'', ''1'', ''-I'', ''eth0'', ''-s'', ''10.0.0.2'', ''10.0.0.1''],
          Stdout ''reply\<newline>''])"
proof -
  let ?e = "exampleEnv (Exited 0 ''reply'' ''warning'')"
  let ?i = "\<lparr>name = ''eth0'', mac = ''aa:bb:cc:dd:ee:ff'', addr = ''10.0.0.2/24''\<rparr>"
  let ?idx = "[''eth0'' \<mapsto> [10, 0, 0, 1 :: byte]]"
  have el: "To4 (ParseCIDR ?e (addr ?i)) = Some [10, 0, 0, 2]" "?idx (name ?i) = Some [10, 0, 0, 1]"
    by (simp_all add: dispatch_eval)
  have s: "arpingArgs (name ?i) (dottedQuad [10, 0, 0, 2]) (ipString (string6 ?e) [10, 0, 0, 1])
      = [''-U'', ''-c'', ''1'', ''-I'', ''eth0'', ''-s'', ''10.0.0.2'', ''10.0.0.1'']"
    by (simp add: dispatch_eval)
  have a: "arping ?e k args = Exited 0 ''reply'' ''warning''" for k args
    by (simp add: exampleEnv_def)
  from el dispatch_output [of ?e ?i "[10, 0, 0, 2]" ?idx "[10, 0, 0, 1]" 0 "[]"]
  have "\<exists>msg. dispatch ?e ?idx 0 [?i] =
       Log msg # Exec [''-U'', ''-c'', ''1'', ''-I'', ''eth0'', ''-s'', ''10.0.0.2'', ''10.0.0.1''] #
         [Stdout (''reply'' @ ''\<newline>'')]"
    unfolding s a by simp
  with el(1) show ?thesis by simp
qed



end
